theory Spec2Isabelle
  imports Main
begin

section \<open>The CSV aggregation pipeline of ExampleProgram.py\<close>

text \<open>
  The program reads a comma or whitespace separated list of file names, keeps the names
  that denote existing regular files ending in \<open>.csv\<close>, reads each of them with the
  tabular-data library, stacks the tables read and writes the result. Four static methods
  (\<open>FileParser.parse_file_string\<close>, \<open>FileValidator.validate_file_paths\<close>,
  \<open>CSVProcessor.read_and_concat_csvs\<close>, \<open>FileWriter.save_dataframe\<close>) are driven by
  \<open>DataAggregator.process\<close>.

  Strings are lists of characters; a \<open>char\<close> stands for a code point below 256.
\<close>

subsection \<open>Python strings\<close>

text \<open>\<open>str.lower\<close> on code points below 256: the letters A to Z and the Latin-1
  capitals (192 to 222 but the multiplication sign 215) move up by 32.\<close>

definition lower_char :: "char \<Rightarrow> char" where
  "lower_char c =
     (let n = (of_char c :: nat)
      in if (65 \<le> n \<and> n \<le> 90) \<or> (192 \<le> n \<and> n \<le> 222 \<and> n \<noteq> 215)
         then char_of (n + 32) else c)"

definition lower :: "string \<Rightarrow> string" where
  "lower s = map lower_char s"

definition startswith :: "string \<Rightarrow> string \<Rightarrow> bool" where
  "startswith s pre = (take (length pre) s = pre)"

definition endswith :: "string \<Rightarrow> string \<Rightarrow> bool" where
  "endswith s suf = (length suf \<le> length s \<and> drop (length s - length suf) s = suf)"

text \<open>The characters \<open>str.isspace\<close> accepts, which are also the class \<open>\s\<close> of a
  \<open>str\<close> pattern and what \<open>str.strip()\<close> removes: tab, line feed, vertical tab, form
  feed, carriage return, the four separators 28 to 31, space, next line (133) and the
  no-break space (160).\<close>

definition isspace :: "char \<Rightarrow> bool" where
  "isspace c =
     (let n = (of_char c :: nat)
      in (9 \<le> n \<and> n \<le> 13) \<or> (28 \<le> n \<and> n \<le> 32) \<or> n = 133 \<or> n = 160)"

definition strip :: "string \<Rightarrow> string" where
  "strip s = rev (dropWhile isspace (rev (dropWhile isspace s)))"

text \<open>\<open>os.path.join(a, b)\<close> of \<open>posixpath\<close>, for two components: an absolute second
  component replaces the first; otherwise the two are concatenated, with a slash between
  them unless the first is empty or already ends in one.\<close>

definition os_path_join :: "string \<Rightarrow> string \<Rightarrow> string" where
  "os_path_join a b =
     (if startswith b ''/'' then b
      else if a = [] \<or> endswith a ''/'' then a @ b
      else a @ ''/'' @ b)"

subsection \<open>Exceptions, the log and the effects of a run\<close>

text \<open>The exceptions the library calls raise are instances of \<open>Exception\<close>; the reader
  tells \<open>pandas.errors.EmptyDataError\<close> from all others. Each carries the text that
  \<open>str(e)\<close> gives.\<close>

datatype exn = EmptyDataError string | OtherException string

fun str_of :: "exn \<Rightarrow> string" where
  "str_of (EmptyDataError m) = m"
| "str_of (OtherException m) = m"

datatype level = INFO | WARNING | ERROR

type_synonym log_record = "level \<times> string"

text \<open>A table: its column names and its rows, a row holding one cell per column. A
  missing value (NaN) is the cell \<open>None\<close>.\<close>

record 'c dataframe =
  columns :: "string list"
  rows :: "'c option list list"

text \<open>What a run changes: the records sent to the logger, the files written, and the
  attribute \<open>self.dataframe\<close> of the aggregator.\<close>

record 'c world =
  logged :: "log_record list"
  written :: "(string \<times> 'c dataframe) list"
  self_dataframe :: "'c dataframe option"

text \<open>What a run observes of the file system and of the library. Each of the four
  calls returns a value or raises. The last field is the conversion that the library
  applies to a cell when it stacks frames: the column of the result gets a type that
  holds all its cells, so that a cell may change its value (an integer becomes a float
  when a missing value joins its column, and a large integer is rounded then). Which
  conversion applies is the library's choice, from the frames stacked and the name of
  the column; nothing is assumed of it.\<close>

record 'c filesystem =
  os_path_exists :: "string \<Rightarrow> exn + bool"
  os_path_isfile :: "string \<Rightarrow> exn + bool"
  pd_read_csv :: "string \<Rightarrow> exn + 'c dataframe"
  to_csv :: "'c dataframe \<Rightarrow> string \<Rightarrow> exn + unit"
  upcast :: "'c dataframe list \<Rightarrow> string \<Rightarrow> 'c option \<Rightarrow> 'c option"

text \<open>A statement runs in a world and either returns a value or raises, leaving a
  world behind in both cases.\<close>

type_synonym ('w, 'a) py = "'w \<Rightarrow> (exn + 'a) \<times> 'w"

definition ret :: "'a \<Rightarrow> ('w, 'a) py" where
  "ret x = (\<lambda>w. (Inr x, w))"

definition raise :: "exn \<Rightarrow> ('w, 'a) py" where
  "raise e = (\<lambda>w. (Inl e, w))"

definition call :: "exn + 'a \<Rightarrow> ('w, 'a) py" where
  "call r = (\<lambda>w. (r, w))"

definition bind :: "('w, 'a) py \<Rightarrow> ('a \<Rightarrow> ('w, 'b) py) \<Rightarrow> ('w, 'b) py" where
  "bind m f = (\<lambda>w. case m w of (Inl e, w') \<Rightarrow> (Inl e, w') | (Inr x, w') \<Rightarrow> f x w')"

definition try_except :: "('w, 'a) py \<Rightarrow> (exn \<Rightarrow> ('w, 'a) py) \<Rightarrow> ('w, 'a) py" where
  "try_except m h = (\<lambda>w. case m w of (Inl e, w') \<Rightarrow> h e w' | (Inr x, w') \<Rightarrow> (Inr x, w'))"

definition logging :: "level \<Rightarrow> string \<Rightarrow> ('c world, unit) py" where
  "logging lvl msg = (\<lambda>w. (Inr (), w\<lparr>logged := logged w @ [(lvl, msg)]\<rparr>))"

text \<open>A \<open>for\<close> loop over a list; the loop carries the variables its body assigns. A body
  that raises ends the loop.\<close>

fun for_loop :: "'a list \<Rightarrow> ('a \<Rightarrow> 's \<Rightarrow> ('w, 's) py) \<Rightarrow> 's \<Rightarrow> ('w, 's) py" where
  "for_loop [] body s = ret s"
| "for_loop (x # xs) body s = bind (body x s) (for_loop xs body)"

subsection \<open>FileValidator.validate_file_paths\<close>

text \<open>One iteration of the loop: the three checks in the source's order, each failure
  logged as a warning before \<open>continue\<close>; an exception of a check is logged as an error.
  Either way the iteration ends normally.\<close>

definition validate_path ::
  "'c filesystem \<Rightarrow> string \<Rightarrow> string list \<Rightarrow> ('c world, string list) py" where
  "validate_path fs path valid_paths =
     try_except
       (bind (call (os_path_exists fs path)) (\<lambda>ex.
          if \<not> ex then
            bind (logging WARNING (''Path does not exist: '' @ path)) (\<lambda>_. ret valid_paths)
          else
            bind (call (os_path_isfile fs path)) (\<lambda>isf.
              if \<not> isf then
                bind (logging WARNING (''Not a file: '' @ path)) (\<lambda>_. ret valid_paths)
              else if \<not> endswith (lower path) ''.csv'' then
                bind (logging WARNING (''Not a CSV file: '' @ path)) (\<lambda>_. ret valid_paths)
              else ret (valid_paths @ [path]))))
       (\<lambda>e. bind (logging ERROR (''Error validating path '' @ path @ '': '' @ str_of e))
               (\<lambda>_. ret valid_paths))"

definition validate_file_paths ::
  "'c filesystem \<Rightarrow> string list \<Rightarrow> ('c world, string list) py" where
  "validate_file_paths fs file_paths = for_loop file_paths (validate_path fs) []"

subsection \<open>FileParser.parse_file_string\<close>

text \<open>The characters that the pattern \<open>[^,\s]+\<close> does not match: the comma and the
  white space.\<close>

definition is_delim :: "char \<Rightarrow> bool" where
  "is_delim c = (c = CHR '','' \<or> isspace c)"

text \<open>\<open>re.findall\<close> for the pattern \<open>[^,\s]+\<close>: scanning from the left, a position
  where the pattern does not match is passed over; where it matches, the match is the
  longest run of matching characters (the \<open>+\<close> is greedy), and the scan goes on behind it.\<close>

function findall_tokens :: "string \<Rightarrow> string list" where
  "findall_tokens [] = []"
| "findall_tokens (c # cs) =
     (if is_delim c then findall_tokens cs
      else takeWhile (\<lambda>d. \<not> is_delim d) (c # cs)
             # findall_tokens (dropWhile (\<lambda>d. \<not> is_delim d) cs))"
  by pat_completeness auto
termination
  by (relation "measure length") (auto simp: less_Suc_eq_le length_dropWhile_le)

definition parse_file_string :: "string \<Rightarrow> string \<Rightarrow> string list" where
  "parse_file_string file_string base_path =
     (let matches = findall_tokens file_string
      in map (\<lambda>m. os_path_join base_path (strip m)) matches)"

subsection \<open>CSVProcessor.read_and_concat_csvs\<close>

text \<open>\<open>pandas.concat(frames, ignore_index=True)\<close>: the columns of the result are the
  columns of the frames in the order of their first appearance; the rows are the rows of
  the frames, frame after frame, each row laid out on the columns of the result with a
  missing value where its frame has no such column, and each cell then converted to the
  type of its column in the result. An empty list of frames is refused with a
  \<open>ValueError\<close>.\<close>

definition add_column :: "string \<Rightarrow> string list \<Rightarrow> string list" where
  "add_column c acc = (if c \<in> set acc then acc else acc @ [c])"

definition union_columns :: "'c dataframe list \<Rightarrow> string list" where
  "union_columns dfs = fold (\<lambda>df acc. fold add_column (columns df) acc) dfs []"

definition reindex :: "string list \<Rightarrow> string list \<Rightarrow> 'c option list \<Rightarrow> 'c option list" where
  "reindex cols_from cols_to r =
     map (\<lambda>c. case map_of (zip cols_from r) c of None \<Rightarrow> None | Some v \<Rightarrow> v) cols_to"

definition aligned_rows :: "string list \<Rightarrow> 'c dataframe \<Rightarrow> 'c option list list" where
  "aligned_rows cols df = map (reindex (columns df) cols) (rows df)"

definition upcast_row ::
  "'c filesystem \<Rightarrow> 'c dataframe list \<Rightarrow> string list \<Rightarrow> 'c option list \<Rightarrow> 'c option list" where
  "upcast_row fs dfs cols r = map (\<lambda>(c, v). upcast fs dfs c v) (zip cols r)"

definition stack_frames :: "'c filesystem \<Rightarrow> 'c dataframe list \<Rightarrow> 'c dataframe" where
  "stack_frames fs dfs =
     \<lparr>columns = union_columns dfs,
      rows = map (upcast_row fs dfs (union_columns dfs))
               (concat (map (aligned_rows (union_columns dfs)) dfs))\<rparr>"

definition pd_concat :: "'c filesystem \<Rightarrow> 'c dataframe list \<Rightarrow> exn + 'c dataframe" where
  "pd_concat fs dfs =
     (if dfs = [] then Inl (OtherException ''No objects to concatenate'')
      else Inr (stack_frames fs dfs))"

text \<open>One iteration of the reading loop: the frame read is appended; the empty-data
  error is logged as a warning, any other exception as an error.\<close>

definition read_file ::
  "'c filesystem \<Rightarrow> string \<Rightarrow> 'c dataframe list \<Rightarrow> ('c world, 'c dataframe list) py" where
  "read_file fs file dataframes =
     try_except
       (bind (call (pd_read_csv fs file)) (\<lambda>df.
        bind (logging INFO (''Successfully processed: '' @ file)) (\<lambda>_.
        ret (dataframes @ [df]))))
       (\<lambda>e. case e of
           EmptyDataError _ \<Rightarrow>
             bind (logging WARNING (''Empty file: '' @ file)) (\<lambda>_. ret dataframes)
         | OtherException _ \<Rightarrow>
             bind (logging ERROR (''Error processing '' @ file @ '': '' @ str_of e))
               (\<lambda>_. ret dataframes))"

definition read_and_concat_csvs ::
  "'c filesystem \<Rightarrow> string list \<Rightarrow> ('c world, 'c dataframe option) py" where
  "read_and_concat_csvs fs file_paths =
     (if file_paths = [] then
        bind (logging WARNING ''No valid files to process'') (\<lambda>_. ret None)
      else
        bind (for_loop file_paths (read_file fs) []) (\<lambda>dataframes.
          if dataframes \<noteq> [] then
            bind (call (pd_concat fs dataframes)) (\<lambda>combined. ret (Some combined))
          else
            bind (logging WARNING ''No DataFrames were processed'') (\<lambda>_. ret None)))"

subsection \<open>FileWriter.save_dataframe\<close>

text \<open>\<open>dataframe.to_csv(out_file, index=False)\<close>: the file system accepts the write,
  which leaves the file behind, or raises.\<close>

definition write_csv :: "'c filesystem \<Rightarrow> 'c dataframe \<Rightarrow> string \<Rightarrow> ('c world, unit) py" where
  "write_csv fs df out_file =
     (\<lambda>w. case to_csv fs df out_file of
             Inl e \<Rightarrow> (Inl e, w)
           | Inr _ \<Rightarrow> (Inr (), w\<lparr>written := written w @ [(out_file, df)]\<rparr>))"

definition save_dataframe ::
  "'c filesystem \<Rightarrow> 'c dataframe \<Rightarrow> string \<Rightarrow> string \<Rightarrow> ('c world, string) py" where
  "save_dataframe fs dataframe base_path filename =
     try_except
       (let out_file = os_path_join base_path filename
        in bind (write_csv fs dataframe out_file) (\<lambda>_.
           bind (logging INFO (''Aggregated data saved to '' @ out_file)) (\<lambda>_.
           ret out_file)))
       (\<lambda>e. bind (logging ERROR (''Error saving file: '' @ str_of e)) (\<lambda>_. raise e))"

text \<open>The default of the parameter \<open>filename\<close>.\<close>

definition default_filename :: string where
  "default_filename = ''aggregated_data.csv''"

subsection \<open>DataAggregator\<close>

text \<open>The aggregator holds the file string and the base path, the working directory at
  construction; its attribute \<open>dataframe\<close> is part of the world.\<close>

record aggregator =
  file_string :: string
  base_path :: string

definition set_dataframe :: "'c dataframe option \<Rightarrow> ('c world, unit) py" where
  "set_dataframe d = (\<lambda>w. (Inr (), w\<lparr>self_dataframe := d\<rparr>))"

definition process :: "'c filesystem \<Rightarrow> aggregator \<Rightarrow> ('c world, string option) py" where
  "process fs self =
     try_except
       (let file_paths = parse_file_string (file_string self) (base_path self)
        in bind (validate_file_paths fs file_paths) (\<lambda>valid_paths.
           bind (read_and_concat_csvs fs valid_paths) (\<lambda>d.
           bind (set_dataframe d) (\<lambda>_.
             case d of
               Some dataframe \<Rightarrow>
                 bind (save_dataframe fs dataframe (base_path self) default_filename)
                   (\<lambda>out_file. ret (Some out_file))
             | None \<Rightarrow>
                 bind (logging WARNING ''No data to save'') (\<lambda>_. ret None)))))
       (\<lambda>e. bind (logging ERROR (''Data aggregation failed: '' @ str_of e)) (\<lambda>_. ret None))"

section \<open>What the claims speak of\<close>

text \<open>The definitions of this section are not code of the program: they name what the
  claims speak of, for the theorems to compare the program with.\<close>

subsection \<open>Valid paths, tables read, and what is logged for one path\<close>

text \<open>A valid path: it exists, it is a regular file, and it ends in \<open>.csv\<close> whatever the
  case of the letters. A check that raises is not passed.\<close>

definition is_valid :: "'c filesystem \<Rightarrow> string \<Rightarrow> bool" where
  "is_valid fs path =
     (os_path_exists fs path = Inr True \<and> os_path_isfile fs path = Inr True
      \<and> endswith (lower path) ''.csv'')"

text \<open>The records the validator logs for one path: nothing for a valid path, the
  warning of the first check that fails, or the error of the first check that raises.\<close>

definition validation_log :: "'c filesystem \<Rightarrow> string \<Rightarrow> log_record list" where
  "validation_log fs path =
     (case os_path_exists fs path of
        Inl e \<Rightarrow> [(ERROR, ''Error validating path '' @ path @ '': '' @ str_of e)]
      | Inr ex \<Rightarrow>
          if \<not> ex then [(WARNING, ''Path does not exist: '' @ path)]
          else (case os_path_isfile fs path of
                  Inl e \<Rightarrow> [(ERROR, ''Error validating path '' @ path @ '': '' @ str_of e)]
                | Inr isf \<Rightarrow>
                    if \<not> isf then [(WARNING, ''Not a file: '' @ path)]
                    else if \<not> endswith (lower path) ''.csv''
                         then [(WARNING, ''Not a CSV file: '' @ path)]
                    else []))"

text \<open>A world with more records in its log.\<close>

definition add_log :: "log_record list \<Rightarrow> 'c world \<Rightarrow> 'c world" where
  "add_log rs w = w\<lparr>logged := logged w @ rs\<rparr>"

text \<open>The table read from one file, if its read returns; the tables read from a list
  of paths, in the order of the paths: the successfully read files.\<close>

definition read_outcome :: "'c filesystem \<Rightarrow> string \<Rightarrow> 'c dataframe list" where
  "read_outcome fs file = (case pd_read_csv fs file of Inl e \<Rightarrow> [] | Inr df \<Rightarrow> [df])"

definition frames_read :: "'c filesystem \<Rightarrow> string list \<Rightarrow> 'c dataframe list" where
  "frames_read fs file_paths = concat (map (read_outcome fs) file_paths)"

text \<open>The record the reader logs for one file.\<close>

definition read_log :: "'c filesystem \<Rightarrow> string \<Rightarrow> log_record list" where
  "read_log fs file =
     (case pd_read_csv fs file of
        Inr df \<Rightarrow> [(INFO, ''Successfully processed: '' @ file)]
      | Inl (EmptyDataError m) \<Rightarrow> [(WARNING, ''Empty file: '' @ file)]
      | Inl (OtherException m) \<Rightarrow> [(ERROR, ''Error processing '' @ file @ '': '' @ m)])"

text \<open>For an aggregator: the valid paths among the paths parsed from its file string,
  the path of its output, and what is logged before the combined table is built.\<close>

definition valid_paths_of :: "'c filesystem \<Rightarrow> aggregator \<Rightarrow> string list" where
  "valid_paths_of fs self =
     filter (is_valid fs) (parse_file_string (file_string self) (base_path self))"

definition output_path :: "aggregator \<Rightarrow> string" where
  "output_path self = os_path_join (base_path self) default_filename"

definition pipeline_log :: "'c filesystem \<Rightarrow> aggregator \<Rightarrow> log_record list" where
  "pipeline_log fs self =
     concat (map (validation_log fs) (parse_file_string (file_string self) (base_path self)))
     @ (if valid_paths_of fs self = [] then [(WARNING, ''No valid files to process'')]
        else concat (map (read_log fs) (valid_paths_of fs self)))"

subsection \<open>Maximal runs\<close>

text \<open>\<open>maximal_runs s ts\<close>: the list \<open>ts\<close> holds the maximal runs of characters of \<open>s\<close>
  that are no delimiters, in their order in \<open>s\<close>. Either \<open>s\<close> holds delimiters only and
  there is no run; or \<open>s\<close> is made of delimiters, then a first run \<open>t\<close> (not empty, no
  delimiter in it), then a rest that is empty or starts with a delimiter, so that the run
  cannot be extended, and the remaining runs are those of the rest.\<close>

inductive maximal_runs :: "string \<Rightarrow> string list \<Rightarrow> bool" where
  no_run: "\<forall>c\<in>set s. is_delim c \<Longrightarrow> maximal_runs s []"
| run: "\<forall>c\<in>set pre. is_delim c \<Longrightarrow> t \<noteq> [] \<Longrightarrow> \<forall>c\<in>set t. \<not> is_delim c \<Longrightarrow>
        rest = [] \<or> is_delim (hd rest) \<Longrightarrow> maximal_runs rest ts \<Longrightarrow>
        maximal_runs (pre @ t @ rest) (t # ts)"

subsection \<open>Well-formed tables\<close>

text \<open>A frame as the reader returns it: the column names differ from each other and
  every row has one cell per column.\<close>

definition well_formed :: "'c dataframe \<Rightarrow> bool" where
  "well_formed df =
     (distinct (columns df) \<and> (\<forall>r\<in>set (rows df). length r = length (columns df)))"

subsection \<open>A directory for the examples\<close>

text \<open>The directory \<open>/w\<close> holds two tables \<open>a.csv\<close> (column \<open>x\<close>, rows 1 and 2) and
  \<open>b.csv\<close> (columns \<open>x\<close> and \<open>y\<close>, one row), a file \<open>header.csv\<close> with a header line and
  no data, an empty file \<open>empty.csv\<close>, a file \<open>bad.csv\<close> that the parser rejects, a text
  file, a directory named \<open>sub.csv\<close>, and a name \<open>locked.csv\<close> whose check raises.
  The numbers of the tables are small integers, which no conversion changes.\<close>

definition example_fs :: "int filesystem" where
  "example_fs =
     \<lparr>os_path_exists = (\<lambda>p.
        if p = ''/w/locked.csv'' then Inl (OtherException ''Permission denied'')
        else Inr (p \<in> set [''/w/a.csv'', ''/w/b.csv'', ''/w/header.csv'', ''/w/empty.csv'',
                            ''/w/bad.csv'', ''/w/notacsv.txt'', ''/w/sub.csv''])),
      os_path_isfile = (\<lambda>p.
        Inr (p \<in> set [''/w/a.csv'', ''/w/b.csv'', ''/w/header.csv'', ''/w/empty.csv'',
                       ''/w/bad.csv'', ''/w/notacsv.txt''])),
      pd_read_csv = (\<lambda>p.
        if p = ''/w/a.csv'' then Inr \<lparr>columns = [''x''], rows = [[Some 1], [Some 2]]\<rparr>
        else if p = ''/w/b.csv'' then Inr \<lparr>columns = [''x'', ''y''], rows = [[Some 3, Some 4]]\<rparr>
        else if p = ''/w/header.csv'' then Inr \<lparr>columns = [''x'', ''z''], rows = []\<rparr>
        else if p = ''/w/empty.csv'' then Inl (EmptyDataError ''No columns to parse from file'')
        else Inl (OtherException ''Error tokenizing data'')),
      to_csv = (\<lambda>df p. Inr ()),
      upcast = (\<lambda>dfs c v. v)\<rparr>"

text \<open>The same directory on a full disk: every write raises.\<close>

definition full_disk_fs :: "int filesystem" where
  "full_disk_fs = example_fs\<lparr>to_csv := (\<lambda>df p. Inl (OtherException ''No space left on device''))\<rparr>"

definition new_world :: "int world" where
  "new_world = \<lparr>logged = [], written = [], self_dataframe = None\<rparr>"

section \<open>What the program computes\<close>

text \<open>Each method is characterised by an equation that gives its result and the world it
  leaves, for every file system and every world it starts in.\<close>

lemma add_log_Nil [simp]: "add_log [] w = w"
  by (simp add: add_log_def)

lemma add_log_add_log [simp]: "add_log ys (add_log xs w) = add_log (xs @ ys) w"
  by (simp add: add_log_def)

lemma logged_add_log [simp]: "logged (add_log rs w) = logged w @ rs"
  by (simp add: add_log_def)

lemma validate_path_run:
  "validate_path fs path valid_paths w =
     (Inr (if is_valid fs path then valid_paths @ [path] else valid_paths),
      add_log (validation_log fs path) w)"
  by (auto simp: validate_path_def is_valid_def validation_log_def add_log_def
      try_except_def bind_def call_def logging_def ret_def split: sum.splits)

lemma for_loop_run:
  assumes "\<And>x s w. body x s w = (Inr (step x s), eff x w)"
  shows "for_loop xs body s w = (Inr (fold step xs s), fold eff xs w)"
proof (induction xs arbitrary: s w)
  case Nil
  show ?case by (simp add: ret_def)
next
  case (Cons x xs)
  have "for_loop (x # xs) body s w = for_loop xs body (step x s) (eff x w)"
    by (simp add: bind_def assms)
  then show ?case by (simp add: Cons.IH)
qed

lemma fold_add_log: "fold (\<lambda>x. add_log (f x)) xs w = add_log (concat (map f xs)) w"
  by (induction xs arbitrary: w) simp_all

lemma fold_keep:
  "fold (\<lambda>x acc. if P x then acc @ [x] else acc) xs acc = acc @ filter P xs"
  by (induction xs arbitrary: acc) simp_all

lemma validate_loop_run:
  "for_loop ps (validate_path fs) acc w =
     (Inr (acc @ filter (is_valid fs) ps), add_log (concat (map (validation_log fs) ps)) w)"
  using for_loop_run [of "validate_path fs"
      "\<lambda>p acc. if is_valid fs p then acc @ [p] else acc"
      "\<lambda>p. add_log (validation_log fs p)" ps acc w]
  by (simp add: validate_path_run fold_add_log fold_keep)

lemma validate_file_paths_run:
  "validate_file_paths fs ps w =
     (Inr (filter (is_valid fs) ps), add_log (concat (map (validation_log fs) ps)) w)"
  by (simp add: validate_file_paths_def validate_loop_run)

lemma read_file_run:
  "read_file fs file dataframes w =
     (Inr (dataframes @ read_outcome fs file), add_log (read_log fs file) w)"
  by (auto simp: read_file_def read_outcome_def read_log_def add_log_def
      try_except_def bind_def call_def logging_def ret_def split: sum.splits exn.splits)

lemma fold_append_each: "fold (\<lambda>x acc. acc @ f x) xs acc = acc @ concat (map f xs)"
  by (induction xs arbitrary: acc) simp_all

lemma read_loop_run:
  "for_loop ps (read_file fs) acc w =
     (Inr (acc @ frames_read fs ps), add_log (concat (map (read_log fs) ps)) w)"
  using for_loop_run [of "read_file fs" "\<lambda>p acc. acc @ read_outcome fs p"
      "\<lambda>p. add_log (read_log fs p)" ps acc w]
  by (simp add: read_file_run fold_add_log fold_append_each frames_read_def)

lemma read_and_concat_csvs_run:
  "read_and_concat_csvs fs ps w =
     (if ps = [] then (Inr None, add_log [(WARNING, ''No valid files to process'')] w)
      else if frames_read fs ps = [] then
        (Inr None,
         add_log (concat (map (read_log fs) ps) @ [(WARNING, ''No DataFrames were processed'')]) w)
      else
        (Inr (Some (stack_frames fs (frames_read fs ps))),
         add_log (concat (map (read_log fs) ps)) w))"
  by (simp add: read_and_concat_csvs_def bind_def read_loop_run logging_def ret_def call_def
      pd_concat_def add_log_def)

lemma save_dataframe_run:
  "save_dataframe fs df base filename w =
     (case to_csv fs df (os_path_join base filename) of
        Inr u \<Rightarrow>
          (Inr (os_path_join base filename),
           add_log [(INFO, ''Aggregated data saved to '' @ os_path_join base filename)]
             (w\<lparr>written := written w @ [(os_path_join base filename, df)]\<rparr>))
      | Inl e \<Rightarrow> (Inl e, add_log [(ERROR, ''Error saving file: '' @ str_of e)] w))"
  by (simp add: save_dataframe_def try_except_def bind_def write_csv_def logging_def ret_def
      raise_def add_log_def Let_def split: sum.splits)

lemma process_run:
  "process fs self w =
     (if frames_read fs (valid_paths_of fs self) = [] then
        (Inr None,
         add_log (pipeline_log fs self
                  @ (if valid_paths_of fs self = [] then []
                     else [(WARNING, ''No DataFrames were processed'')])
                  @ [(WARNING, ''No data to save'')])
           (w\<lparr>self_dataframe := None\<rparr>))
      else
        (case to_csv fs (stack_frames fs (frames_read fs (valid_paths_of fs self))) (output_path self) of
           Inr u \<Rightarrow>
             (Inr (Some (output_path self)),
              add_log (pipeline_log fs self
                       @ [(INFO, ''Aggregated data saved to '' @ output_path self)])
                (w\<lparr>self_dataframe := Some (stack_frames fs (frames_read fs (valid_paths_of fs self))),
                   written := written w @
                     [(output_path self, stack_frames fs (frames_read fs (valid_paths_of fs self)))]\<rparr>))
         | Inl e \<Rightarrow>
             (Inr None,
              add_log (pipeline_log fs self
                       @ [(ERROR, ''Error saving file: '' @ str_of e),
                          (ERROR, ''Data aggregation failed: '' @ str_of e)])
                (w\<lparr>self_dataframe := Some (stack_frames fs (frames_read fs (valid_paths_of fs self)))\<rparr>))))"
proof -
  have nil: "valid_paths_of fs self = [] \<Longrightarrow> frames_read fs (valid_paths_of fs self) = []"
    by (simp add: frames_read_def)
  show ?thesis
    using nil
    by (simp add: process_def Let_def try_except_def bind_def validate_file_paths_run
        read_and_concat_csvs_run save_dataframe_run set_dataframe_def logging_def ret_def
        valid_paths_of_def [symmetric] output_path_def [symmetric] pipeline_log_def add_log_def
        split: sum.splits)
qed

subsection \<open>The scanner finds the maximal runs\<close>

lemma maximal_runs_delim_Cons:
  assumes "maximal_runs s ts" and "is_delim c"
  shows "maximal_runs (c # s) ts"
  using assms(1)
proof (cases rule: maximal_runs.cases)
  case no_run
  with assms(2) show ?thesis by (simp add: maximal_runs.no_run)
next
  case (run pre t rest ts')
  have "maximal_runs ((c # pre) @ t @ rest) (t # ts')"
    by (rule maximal_runs.run) (use run assms(2) in auto)
  with run show ?thesis by simp
qed

lemma findall_tokens_runs: "maximal_runs s (findall_tokens s)"
proof (induction s rule: findall_tokens.induct)
  case 1
  show ?case by (simp add: maximal_runs.no_run)
next
  case (2 c cs)
  show ?case
  proof (cases "is_delim c")
    case True
    have "maximal_runs cs (findall_tokens cs)"
      using True by (rule "2.IH"(1))
    then have "maximal_runs (c # cs) (findall_tokens cs)"
      using True by (rule maximal_runs_delim_Cons)
    then show ?thesis using True by simp
  next
    case False
    define t where "t = takeWhile (\<lambda>d. \<not> is_delim d) (c # cs)"
    define rest where "rest = dropWhile (\<lambda>d. \<not> is_delim d) cs"
    have whole: "c # cs = [] @ t @ rest"
      using False by (simp add: t_def rest_def)
    have t_ne: "t \<noteq> []"
      using False by (simp add: t_def)
    have t_run: "\<forall>d\<in>set t. \<not> is_delim d"
      unfolding t_def by (auto dest: set_takeWhileD)
    have rest_hd: "rest = [] \<or> is_delim (hd rest)"
      unfolding rest_def using hd_dropWhile [of "\<lambda>d. \<not> is_delim d" cs] by blast
    have "maximal_runs rest (findall_tokens rest)"
      unfolding rest_def using False by (rule "2.IH"(2))
    with t_ne t_run rest_hd have "maximal_runs ([] @ t @ rest) (t # findall_tokens rest)"
      by (intro maximal_runs.run) simp_all
    moreover have "findall_tokens (c # cs) = t # findall_tokens rest"
      using False by (simp add: t_def rest_def)
    ultimately show ?thesis
      by (simp only: whole [symmetric])
  qed
qed

lemma findall_tokens_delims:
  "\<forall>c\<in>set pre. is_delim c \<Longrightarrow> findall_tokens (pre @ s) = findall_tokens s"
  by (induction pre) simp_all

lemma findall_tokens_run:
  assumes "t \<noteq> []" and "\<forall>c\<in>set t. \<not> is_delim c" and "rest = [] \<or> is_delim (hd rest)"
  shows "findall_tokens (t @ rest) = t # findall_tokens rest"
proof -
  obtain c t' where t: "t = c # t'" using assms(1) by (cases t) auto
  have tw: "takeWhile (\<lambda>d. \<not> is_delim d) (t' @ rest) = t'"
    using assms(2,3) t by (cases rest) (auto simp: takeWhile_append)
  have dw: "dropWhile (\<lambda>d. \<not> is_delim d) (t' @ rest) = rest"
    using assms(2,3) t by (cases rest) (auto simp: dropWhile_append)
  show ?thesis using assms(2) t tw dw by simp
qed

lemma maximal_runs_unique: "maximal_runs s ts \<Longrightarrow> ts = findall_tokens s"
proof (induction rule: maximal_runs.induct)
  case (no_run s)
  then show ?case using findall_tokens_delims [of s "[]"] by simp
next
  case (run pre t rest ts)
  then show ?case by (simp add: findall_tokens_delims findall_tokens_run)
qed

lemma maximal_runs_tokens:
  "maximal_runs s ts \<Longrightarrow> \<forall>t\<in>set ts. t \<noteq> [] \<and> (\<forall>c\<in>set t. \<not> is_delim c)"
  by (induction rule: maximal_runs.induct) auto

lemma dropWhile_none: "\<forall>c\<in>set t. \<not> P c \<Longrightarrow> dropWhile P t = t"
  by (cases t) auto

lemma strip_token: "\<forall>c\<in>set t. \<not> is_delim c \<Longrightarrow> strip t = t"
  by (simp add: strip_def is_delim_def dropWhile_none)

lemma parse_file_string_tokens:
  "parse_file_string s base = map (os_path_join base) (findall_tokens s)"
proof -
  have "\<forall>t\<in>set (findall_tokens s). strip t = t"
    using maximal_runs_tokens [OF findall_tokens_runs [of s]] strip_token by blast
  then show ?thesis by (simp add: parse_file_string_def)
qed

subsection \<open>Stacked tables\<close>

lemma set_add_column: "set (add_column c acc) = insert c (set acc)"
  by (auto simp: add_column_def)

lemma distinct_add_column: "distinct acc \<Longrightarrow> distinct (add_column c acc)"
  by (simp add: add_column_def)

lemma set_fold_add_column: "set (fold add_column cs acc) = set acc \<union> set cs"
  by (induction cs arbitrary: acc) (simp_all add: set_add_column)

lemma distinct_fold_add_column: "distinct acc \<Longrightarrow> distinct (fold add_column cs acc)"
  by (induction cs arbitrary: acc) (simp_all add: distinct_add_column)

lemma set_fold_columns:
  "set (fold (\<lambda>df acc. fold add_column (columns df) acc) dfs acc)
     = set acc \<union> (\<Union>df\<in>set dfs. set (columns df))"
proof (induction dfs arbitrary: acc)
  case Nil
  show ?case by simp
next
  case (Cons df dfs)
  show ?case by (simp add: Cons.IH set_fold_add_column Un_assoc)
qed

lemma distinct_fold_columns:
  "distinct acc \<Longrightarrow> distinct (fold (\<lambda>df acc. fold add_column (columns df) acc) dfs acc)"
proof (induction dfs arbitrary: acc)
  case Nil
  then show ?case by simp
next
  case (Cons df dfs)
  then show ?case by (simp add: distinct_fold_add_column)
qed

lemma set_union_columns: "set (union_columns dfs) = (\<Union>df\<in>set dfs. set (columns df))"
  by (simp add: union_columns_def set_fold_columns)

lemma distinct_union_columns: "distinct (union_columns dfs)"
  by (simp add: union_columns_def distinct_fold_columns)

lemma reindex_own_columns:
  assumes "distinct cols" and "length r = length cols"
  shows "reindex cols cols r = r"
proof (rule nth_equalityI)
  show "length (reindex cols cols r) = length r"
    using assms(2) by (simp add: reindex_def)
next
  fix i assume "i < length (reindex cols cols r)"
  then have i: "i < length cols" by (simp add: reindex_def)
  have "map_of (zip cols r) (cols ! i) = Some (r ! i)"
    using assms i by (simp add: map_of_zip_nth)
  then show "reindex cols cols r ! i = r ! i"
    using i by (simp add: reindex_def)
qed

lemma reindex_back:
  assumes "distinct cols_from" and "length r = length cols_from"
    and "set cols_from \<subseteq> set cols_to"
  shows "reindex cols_to cols_from (reindex cols_from cols_to r) = r"
proof -
  let ?f = "\<lambda>c. case map_of (zip cols_from r) c of None \<Rightarrow> None | Some v \<Rightarrow> v"
  have "reindex cols_to cols_from (reindex cols_from cols_to r)
          = map (\<lambda>c. case map_of (zip cols_to (map ?f cols_to)) c of
                        None \<Rightarrow> None | Some v \<Rightarrow> v) cols_from"
    by (simp add: reindex_def)
  also have "\<dots> = map ?f cols_from"
    using assms(3) by (auto simp: map_of_zip_map)
  also have "\<dots> = reindex cols_from cols_from r"
    by (simp add: reindex_def)
  also have "\<dots> = r"
    using assms(1,2) by (rule reindex_own_columns)
  finally show ?thesis .
qed

lemma aligned_rows_back:
  assumes "well_formed df" and "set (columns df) \<subseteq> set cols"
  shows "map (reindex cols (columns df)) (aligned_rows cols df) = rows df"
proof -
  have "\<forall>r\<in>set (rows df). reindex cols (columns df) (reindex (columns df) cols r) = r"
    using assms by (auto simp: well_formed_def intro: reindex_back)
  then show ?thesis
    by (simp add: aligned_rows_def map_idI)
qed

lemma length_concat_aligned:
  "length (concat (map (aligned_rows cols) dfs)) = sum_list (map (\<lambda>df. length (rows df)) dfs)"
  by (induction dfs) (simp_all add: aligned_rows_def)

subsection \<open>Evaluation of the examples\<close>

lemmas string_eval = startswith_def endswith_def lower_def lower_char_def char_of_def bit_0
  isspace_def is_delim_def strip_def os_path_join_def

lemmas example_eval = example_fs_def full_disk_fs_def new_world_def is_valid_def
  validation_log_def read_outcome_def frames_read_def read_log_def

lemmas frame_eval = stack_frames_def upcast_row_def union_columns_def add_column_def aligned_rows_def
  reindex_def add_log_def

subsection \<open>Counting occurrences\<close>

lemma count_list_filter:
  "count_list (filter P xs) x = (if P x then count_list xs x else 0)"
  by (induction xs) auto

lemma concat_map_concat:
  "concat (map g (concat (map f xs))) = concat (map (\<lambda>x. concat (map g (f x))) xs)"
  by (induction xs) simp_all

lemma count_list_sum_le:
  "count_list xs x * f x \<le> sum_list (map f xs)" for f :: "'a \<Rightarrow> nat"
  by (induction xs) auto

lemmas pipeline_eval = valid_paths_of_def output_path_def pipeline_log_def
  parse_file_string_def default_filename_def

section \<open>The claims\<close>

subsection \<open>The validator\<close>

text \<open>
  C3. For every ordered list of candidate paths, the validator returns exactly the
  paths of the list, in the order of the list and as often as they occur, that exist,
  are regular files and end in \<open>.csv\<close> whatever the case of the letters. No path that
  fails one of the three checks is returned and no path that passes all three is left
  out.
\<close>

theorem validator_returns_valid_subsequence:
  "fst (validate_file_paths fs file_paths w) = Inr (filter (is_valid fs) file_paths)"
  by (simp add: validate_file_paths_run)

text \<open>
  C8. One path never makes the validator abort. Whatever stands before and behind a
  path \<open>p\<close> in the list, the validator returns a list and raises nothing; a path that is
  not valid changes nothing in what is returned for the others; a path that fails a
  check leaves a warning that names the reason and the path; a path whose check raises
  leaves an error record with the text of the exception.
\<close>

theorem validator_never_aborts:
  "(\<exists>valid. fst (validate_file_paths fs (ps @ p # qs) w) = Inr valid)
   \<and> (\<not> is_valid fs p \<longrightarrow>
        fst (validate_file_paths fs (ps @ p # qs) w) = fst (validate_file_paths fs (ps @ qs) w))
   \<and> (os_path_exists fs p = Inr False \<longrightarrow>
        (WARNING, ''Path does not exist: '' @ p)
          \<in> set (logged (snd (validate_file_paths fs (ps @ p # qs) w))))
   \<and> (os_path_exists fs p = Inr True \<and> os_path_isfile fs p = Inr False \<longrightarrow>
        (WARNING, ''Not a file: '' @ p)
          \<in> set (logged (snd (validate_file_paths fs (ps @ p # qs) w))))
   \<and> (os_path_exists fs p = Inr True \<and> os_path_isfile fs p = Inr True
        \<and> \<not> endswith (lower p) ''.csv'' \<longrightarrow>
        (WARNING, ''Not a CSV file: '' @ p)
          \<in> set (logged (snd (validate_file_paths fs (ps @ p # qs) w))))
   \<and> (\<forall>e. os_path_exists fs p = Inl e
            \<or> (os_path_exists fs p = Inr True \<and> os_path_isfile fs p = Inl e) \<longrightarrow>
        (ERROR, ''Error validating path '' @ p @ '': '' @ str_of e)
          \<in> set (logged (snd (validate_file_paths fs (ps @ p # qs) w))))"
proof -
  have log: "logged (snd (validate_file_paths fs (ps @ p # qs) w))
      = logged w @ concat (map (validation_log fs) ps) @ validation_log fs p
          @ concat (map (validation_log fs) qs)"
    by (simp add: validate_file_paths_run)
  have "\<exists>valid. fst (validate_file_paths fs (ps @ p # qs) w) = Inr valid"
    by (simp add: validate_file_paths_run)
  moreover have "\<not> is_valid fs p \<longrightarrow>
      fst (validate_file_paths fs (ps @ p # qs) w) = fst (validate_file_paths fs (ps @ qs) w)"
    by (simp add: validate_file_paths_run)
  moreover have "os_path_exists fs p = Inr False \<longrightarrow>
      (WARNING, ''Path does not exist: '' @ p)
        \<in> set (logged (snd (validate_file_paths fs (ps @ p # qs) w)))"
    unfolding log by (simp add: validation_log_def)
  moreover have "os_path_exists fs p = Inr True \<and> os_path_isfile fs p = Inr False \<longrightarrow>
      (WARNING, ''Not a file: '' @ p)
        \<in> set (logged (snd (validate_file_paths fs (ps @ p # qs) w)))"
    unfolding log by (simp add: validation_log_def)
  moreover have "os_path_exists fs p = Inr True \<and> os_path_isfile fs p = Inr True
      \<and> \<not> endswith (lower p) ''.csv'' \<longrightarrow>
      (WARNING, ''Not a CSV file: '' @ p)
        \<in> set (logged (snd (validate_file_paths fs (ps @ p # qs) w)))"
    unfolding log by (simp add: validation_log_def)
  moreover have "\<forall>e. os_path_exists fs p = Inl e
        \<or> (os_path_exists fs p = Inr True \<and> os_path_isfile fs p = Inl e) \<longrightarrow>
      (ERROR, ''Error validating path '' @ p @ '': '' @ str_of e)
        \<in> set (logged (snd (validate_file_paths fs (ps @ p # qs) w)))"
    unfolding log by (auto simp: validation_log_def)
  ultimately show ?thesis by blast
qed

theorem validator_never_aborts_witness:
  "fst (validate_file_paths example_fs [''/w/a.csv'', ''/w/missing.csv'', ''/w/b.csv''] new_world)
     = Inr [''/w/a.csv'', ''/w/b.csv'']
   \<and> (WARNING, ''Path does not exist: /w/missing.csv'')
       \<in> set (logged (snd (validate_file_paths example_fs
                  [''/w/a.csv'', ''/w/missing.csv'', ''/w/b.csv''] new_world)))
   \<and> (WARNING, ''Not a file: /w/sub.csv'')
       \<in> set (logged (snd (validate_file_paths example_fs
                  [''/w/a.csv'', ''/w/sub.csv'', ''/w/b.csv''] new_world)))
   \<and> (WARNING, ''Not a CSV file: /w/notacsv.txt'')
       \<in> set (logged (snd (validate_file_paths example_fs
                  [''/w/a.csv'', ''/w/notacsv.txt'', ''/w/b.csv''] new_world)))
   \<and> (ERROR, ''Error validating path /w/locked.csv: Permission denied'')
       \<in> set (logged (snd (validate_file_paths example_fs
                  [''/w/a.csv'', ''/w/locked.csv'', ''/w/b.csv''] new_world)))"
proof -
  have rest: "fst (validate_file_paths example_fs ([''/w/a.csv''] @ [''/w/b.csv'']) new_world)
      = Inr [''/w/a.csv'', ''/w/b.csv'']"
    by (simp add: validate_file_paths_run example_eval string_eval)
  have missing: "os_path_exists example_fs ''/w/missing.csv'' = Inr False"
    by (simp add: example_fs_def)
  have sub: "os_path_exists example_fs ''/w/sub.csv'' = Inr True
      \<and> os_path_isfile example_fs ''/w/sub.csv'' = Inr False"
    by (simp add: example_fs_def)
  have not_csv: "os_path_exists example_fs ''/w/notacsv.txt'' = Inr True
      \<and> os_path_isfile example_fs ''/w/notacsv.txt'' = Inr True
      \<and> \<not> endswith (lower ''/w/notacsv.txt'') ''.csv''"
    by (simp add: example_fs_def string_eval)
  have locked: "os_path_exists example_fs ''/w/locked.csv'' = Inl (OtherException ''Permission denied'')"
    by (simp add: example_fs_def)
  have not_valid: "\<not> is_valid example_fs ''/w/missing.csv''"
    using missing by (simp add: is_valid_def)
  have c0: "fst (validate_file_paths example_fs
        [''/w/a.csv'', ''/w/missing.csv'', ''/w/b.csv''] new_world) = Inr [''/w/a.csv'', ''/w/b.csv'']"
    using validator_never_aborts
      [of example_fs "[''/w/a.csv'']" "''/w/missing.csv''" "[''/w/b.csv'']" new_world]
      not_valid rest by simp
  have c1: "(WARNING, ''Path does not exist: /w/missing.csv'')
       \<in> set (logged (snd (validate_file_paths example_fs
                  [''/w/a.csv'', ''/w/missing.csv'', ''/w/b.csv''] new_world)))"
    using validator_never_aborts
      [of example_fs "[''/w/a.csv'']" "''/w/missing.csv''" "[''/w/b.csv'']" new_world]
      missing by simp
  have c2: "(WARNING, ''Not a file: /w/sub.csv'')
       \<in> set (logged (snd (validate_file_paths example_fs
                  [''/w/a.csv'', ''/w/sub.csv'', ''/w/b.csv''] new_world)))"
    using validator_never_aborts
      [of example_fs "[''/w/a.csv'']" "''/w/sub.csv''" "[''/w/b.csv'']" new_world]
      sub by simp
  have c3: "(WARNING, ''Not a CSV file: /w/notacsv.txt'')
       \<in> set (logged (snd (validate_file_paths example_fs
                  [''/w/a.csv'', ''/w/notacsv.txt'', ''/w/b.csv''] new_world)))"
    using validator_never_aborts
      [of example_fs "[''/w/a.csv'']" "''/w/notacsv.txt''" "[''/w/b.csv'']" new_world]
      not_csv by simp
  have c4: "(ERROR, ''Error validating path /w/locked.csv: Permission denied'')
       \<in> set (logged (snd (validate_file_paths example_fs
                  [''/w/a.csv'', ''/w/locked.csv'', ''/w/b.csv''] new_world)))"
    using validator_never_aborts
      [of example_fs "[''/w/a.csv'']" "''/w/locked.csv''" "[''/w/b.csv'']" new_world]
      locked by simp
  from c0 c1 c2 c3 c4 show ?thesis by blast
qed

subsection \<open>The parser\<close>

text \<open>
  C4. For every input string and base directory the parser returns the maximal runs of
  characters other than comma and white space, in the order of the input, each joined to
  the base directory with \<open>os.path.join\<close>. The predicate \<open>maximal_runs s ts\<close> says that
  \<open>ts\<close> lists the maximal runs of \<open>s\<close>: \<open>s\<close> is cut into delimiters, a non-empty run
  without delimiter, and a rest that is empty or starts with a delimiter and whose runs
  are the remaining ones. Every string has such a list, the parser's result is the
  image of any such list, and a string without a run gives the empty list. Joining is
  what \<open>os.path.join\<close> does: a run that starts with a slash is kept as it is. The
  parser takes no file system: it checks neither existence nor extension.
\<close>

theorem parser_returns_maximal_runs:
  "(\<exists>ts. maximal_runs s ts)
   \<and> (\<forall>ts. maximal_runs s ts \<longrightarrow>
          parse_file_string s base = map (os_path_join base) ts)
   \<and> ((\<forall>c\<in>set s. is_delim c) \<longrightarrow> parse_file_string s base = [])"
proof -
  have "\<exists>ts. maximal_runs s ts"
    using findall_tokens_runs by blast
  moreover have "\<forall>ts. maximal_runs s ts \<longrightarrow>
      parse_file_string s base = map (os_path_join base) ts"
    using maximal_runs_unique by (auto simp: parse_file_string_tokens)
  moreover have "(\<forall>c\<in>set s. is_delim c) \<longrightarrow>
      parse_file_string s base = []"
    using findall_tokens_delims [of s "[]"]
    by (simp add: parse_file_string_tokens)
  ultimately show ?thesis by blast
qed

theorem parser_returns_maximal_runs_witness:
  "maximal_runs ''a.csv, b.csv'' [''a.csv'', ''b.csv'']
   \<and> parse_file_string ''a.csv, b.csv'' ''/w'' = [''/w/a.csv'', ''/w/b.csv'']
   \<and> list_all is_delim '' ,  ''
   \<and> parse_file_string '' ,  '' ''/w'' = []"
proof -
  have second: "maximal_runs '', b.csv'' [''b.csv'']"
    using maximal_runs.run [of "'', ''" "''b.csv''" "[]" "[]"]
    by (simp add: maximal_runs.no_run string_eval)
  have first: "maximal_runs ''a.csv, b.csv'' [''a.csv'', ''b.csv'']"
    using maximal_runs.run [of "[]" "''a.csv''" "'', b.csv''" "[''b.csv'']"] second
    by (simp add: string_eval)
  have delims: "\<forall>c\<in>set '' ,  ''. is_delim c"
    by (simp add: string_eval)
  have "parse_file_string ''a.csv, b.csv'' ''/w''
      = map (os_path_join ''/w'') [''a.csv'', ''b.csv'']"
    using parser_returns_maximal_runs [of "''a.csv, b.csv''" "''/w''"] first by blast
  then have paths: "parse_file_string ''a.csv, b.csv'' ''/w'' = [''/w/a.csv'', ''/w/b.csv'']"
    by (simp add: string_eval)
  have none: "parse_file_string '' ,  '' ''/w'' = []"
    using parser_returns_maximal_runs [of "'' ,  ''" "''/w''"] delims by blast
  from first paths delims none show ?thesis by (simp add: list_all_iff)
qed

subsection \<open>The writer\<close>

text \<open>
  C7. For every table, base directory and file name, the writer joins the base
  directory and the file name to the output path. When the write succeeds, it returns
  this path and the file is written. When the write raises, the writer logs the failure
  as an error and raises the same exception to its caller; nothing is written. The file
  name that \<open>process\<close> passes, the default of the parameter, is \<open>aggregated_data.csv\<close>.
\<close>

theorem writer_returns_path_or_reraises:
  "(to_csv fs df (os_path_join base filename) = Inr () \<longrightarrow>
      fst (save_dataframe fs df base filename w) = Inr (os_path_join base filename)
      \<and> written (snd (save_dataframe fs df base filename w))
          = written w @ [(os_path_join base filename, df)])
   \<and> (\<forall>e. to_csv fs df (os_path_join base filename) = Inl e \<longrightarrow>
      fst (save_dataframe fs df base filename w) = Inl e
      \<and> (ERROR, ''Error saving file: '' @ str_of e)
          \<in> set (logged (snd (save_dataframe fs df base filename w)))
      \<and> written (snd (save_dataframe fs df base filename w)) = written w)
   \<and> default_filename = ''aggregated_data.csv''"
  by (simp add: save_dataframe_run default_filename_def add_log_def)

theorem writer_returns_path_or_reraises_witness:
  "fst (save_dataframe example_fs \<lparr>columns = [''x''], rows = [[Some 1]]\<rparr> ''/w''
          default_filename new_world) = Inr ''/w/aggregated_data.csv''
   \<and> fst (save_dataframe full_disk_fs \<lparr>columns = [''x''], rows = [[Some 1]]\<rparr> ''/w''
          default_filename new_world) = Inl (OtherException ''No space left on device'')
   \<and> (ERROR, ''Error saving file: No space left on device'')
       \<in> set (logged (snd (save_dataframe full_disk_fs \<lparr>columns = [''x''], rows = [[Some 1]]\<rparr>
                  ''/w'' default_filename new_world)))"
proof -
  have path: "os_path_join ''/w'' default_filename = ''/w/aggregated_data.csv''"
    by (simp add: default_filename_def string_eval)
  have ok: "to_csv example_fs \<lparr>columns = [''x''], rows = [[Some 1]]\<rparr>
      (os_path_join ''/w'' default_filename) = Inr ()"
    by (simp add: example_fs_def)
  have full: "to_csv full_disk_fs \<lparr>columns = [''x''], rows = [[Some 1]]\<rparr>
      (os_path_join ''/w'' default_filename) = Inl (OtherException ''No space left on device'')"
    by (simp add: full_disk_fs_def)
  have saved: "fst (save_dataframe example_fs \<lparr>columns = [''x''], rows = [[Some 1]]\<rparr> ''/w''
          default_filename new_world) = Inr ''/w/aggregated_data.csv''"
    using writer_returns_path_or_reraises
      [of example_fs "\<lparr>columns = [''x''], rows = [[Some 1]]\<rparr>" "''/w''" default_filename new_world]
      ok path by simp
  have failed: "fst (save_dataframe full_disk_fs \<lparr>columns = [''x''], rows = [[Some 1]]\<rparr> ''/w''
          default_filename new_world) = Inl (OtherException ''No space left on device'')
     \<and> (ERROR, ''Error saving file: No space left on device'')
       \<in> set (logged (snd (save_dataframe full_disk_fs \<lparr>columns = [''x''], rows = [[Some 1]]\<rparr>
                  ''/w'' default_filename new_world)))"
    using writer_returns_path_or_reraises
      [of full_disk_fs "\<lparr>columns = [''x''], rows = [[Some 1]]\<rparr>" "''/w''" default_filename new_world]
      full by simp
  from saved failed show ?thesis by simp
qed

subsection \<open>The reader\<close>

text \<open>
  C1. For every run of the reader in which at least one file is read, the reader
  returns a combined table. Its number of rows is the sum of the numbers of rows of the
  tables read. Its rows stand in the order of the rows read: table after table in the
  order of the paths, and row after row in the order of each table. Row for row in that
  order, a row of the combined table is the row read, laid out on the columns of the
  combined table and then converted cell by cell as the library converts the column;
  the cells of the combined table need not be those read. Before that conversion, the
  laying out loses nothing: for a well-formed table, the cells of a laid-out row under
  the table's own columns are the cells of the row as it was read.
\<close>

theorem combined_rows_are_stacked_file_rows:
  assumes "frames_read fs file_paths \<noteq> []"
  shows "\<exists>combined. fst (read_and_concat_csvs fs file_paths w) = Inr (Some combined)
     \<and> length (rows combined)
         = sum_list (map (\<lambda>df. length (rows df)) (frames_read fs file_paths))
     \<and> rows combined
         = map (upcast_row fs (frames_read fs file_paths) (columns combined))
             (concat (map (aligned_rows (columns combined)) (frames_read fs file_paths)))
     \<and> (\<forall>df\<in>set (frames_read fs file_paths). well_formed df \<longrightarrow>
           map (reindex (columns combined) (columns df)) (aligned_rows (columns combined) df)
             = rows df)"
proof -
  let ?dfs = "frames_read fs file_paths"
  have paths: "file_paths \<noteq> []"
    using assms by (auto simp: frames_read_def)
  have run: "fst (read_and_concat_csvs fs file_paths w) = Inr (Some (stack_frames fs ?dfs))"
    using assms paths by (simp add: read_and_concat_csvs_run)
  have cols: "columns (stack_frames fs ?dfs) = union_columns ?dfs"
    by (simp add: stack_frames_def)
  have stacked: "rows (stack_frames fs ?dfs)
      = map (upcast_row fs ?dfs (union_columns ?dfs))
          (concat (map (aligned_rows (union_columns ?dfs)) ?dfs))"
    by (simp add: stack_frames_def)
  have count: "length (rows (stack_frames fs ?dfs))
      = sum_list (map (\<lambda>df. length (rows df)) ?dfs)"
    unfolding stacked by (simp only: length_map length_concat_aligned)
  have restored: "\<forall>df\<in>set ?dfs. well_formed df \<longrightarrow>
      map (reindex (union_columns ?dfs) (columns df)) (aligned_rows (union_columns ?dfs) df)
        = rows df"
  proof (intro ballI impI)
    fix df assume "df \<in> set ?dfs" and wf: "well_formed df"
    then have "set (columns df) \<subseteq> set (union_columns ?dfs)"
      by (auto simp: set_union_columns)
    with wf show "map (reindex (union_columns ?dfs) (columns df))
        (aligned_rows (union_columns ?dfs) df) = rows df"
      by (rule aligned_rows_back)
  qed
  show ?thesis
    using run count stacked restored unfolding cols [symmetric] by blast
qed

theorem combined_rows_are_stacked_file_rows_witness:
  "frames_read example_fs [''/w/a.csv'', ''/w/empty.csv'', ''/w/b.csv''] \<noteq> []
   \<and> (\<exists>combined.
         fst (read_and_concat_csvs example_fs [''/w/a.csv'', ''/w/empty.csv'', ''/w/b.csv'']
                new_world) = Inr (Some combined)
         \<and> length (rows combined) = 3)"
proof -
  have frames: "frames_read example_fs [''/w/a.csv'', ''/w/empty.csv'', ''/w/b.csv'']
      = [\<lparr>columns = [''x''], rows = [[Some 1], [Some 2]]\<rparr>,
         \<lparr>columns = [''x'', ''y''], rows = [[Some 3, Some 4]]\<rparr>]"
    by (simp add: example_eval)
  then have some: "frames_read example_fs [''/w/a.csv'', ''/w/empty.csv'', ''/w/b.csv''] \<noteq> []"
    by simp
  obtain combined where
    "fst (read_and_concat_csvs example_fs [''/w/a.csv'', ''/w/empty.csv'', ''/w/b.csv'']
            new_world) = Inr (Some combined)"
    and "length (rows combined)
      = sum_list (map (\<lambda>df. length (rows df))
          (frames_read example_fs [''/w/a.csv'', ''/w/empty.csv'', ''/w/b.csv'']))"
    using combined_rows_are_stacked_file_rows [OF some, of new_world] by blast
  then show ?thesis
    using some unfolding frames by auto
qed

text \<open>
  C5. A file whose read raises is skipped and the batch goes on: for every list of
  paths around a file \<open>f\<close> whose read raises, the reader returns, without raising, what
  it returns for the list without \<open>f\<close>, which is the stack of all tables read from the
  other files (or no result when there is none). When the exception is the empty-data
  error, a warning that names the file is logged; any other exception is logged as an
  error with its text.

  The empty-data error is raised for a file without any column to parse. A file that
  holds a header line and no data is read without error as a table with columns and no
  row: the reader logs it as processed and stacks it with the others, so that its
  columns are columns of the combined table.
\<close>

theorem read_failures_are_skipped:
  assumes "pd_read_csv fs f = Inl e"
  shows "fst (read_and_concat_csvs fs (ps @ f # qs) w)
       = Inr (if frames_read fs (ps @ qs) = [] then None
              else Some (stack_frames fs (frames_read fs (ps @ qs))))
     \<and> fst (read_and_concat_csvs fs (ps @ f # qs) w) = fst (read_and_concat_csvs fs (ps @ qs) w)
     \<and> (\<forall>m. e = EmptyDataError m \<longrightarrow>
          (WARNING, ''Empty file: '' @ f)
            \<in> set (logged (snd (read_and_concat_csvs fs (ps @ f # qs) w))))
     \<and> (\<forall>m. e = OtherException m \<longrightarrow>
          (ERROR, ''Error processing '' @ f @ '': '' @ m)
            \<in> set (logged (snd (read_and_concat_csvs fs (ps @ f # qs) w))))"
proof -
  have skip: "frames_read fs (ps @ f # qs) = frames_read fs (ps @ qs)"
    using assms by (simp add: frames_read_def read_outcome_def)
  have none: "ps @ qs = [] \<Longrightarrow> frames_read fs (ps @ qs) = []"
    by (simp add: frames_read_def)
  have result: "fst (read_and_concat_csvs fs (ps @ f # qs) w)
       = Inr (if frames_read fs (ps @ qs) = [] then None
              else Some (stack_frames fs (frames_read fs (ps @ qs))))"
    by (simp add: read_and_concat_csvs_run skip)
  have same: "fst (read_and_concat_csvs fs (ps @ qs) w)
       = Inr (if frames_read fs (ps @ qs) = [] then None
              else Some (stack_frames fs (frames_read fs (ps @ qs))))"
    using none by (simp add: read_and_concat_csvs_run)
  have log: "set (read_log fs f)
      \<subseteq> set (logged (snd (read_and_concat_csvs fs (ps @ f # qs) w)))"
    by (auto simp: read_and_concat_csvs_run)
  have warned: "\<forall>m. e = EmptyDataError m \<longrightarrow>
      (WARNING, ''Empty file: '' @ f)
        \<in> set (logged (snd (read_and_concat_csvs fs (ps @ f # qs) w)))"
    using log assms by (auto simp: read_log_def)
  have error: "\<forall>m. e = OtherException m \<longrightarrow>
      (ERROR, ''Error processing '' @ f @ '': '' @ m)
        \<in> set (logged (snd (read_and_concat_csvs fs (ps @ f # qs) w)))"
    using log assms by (auto simp: read_log_def)
  from result same warned error show ?thesis by simp
qed

theorem read_failures_are_skipped_witness:
  "pd_read_csv example_fs ''/w/empty.csv'' = Inl (EmptyDataError ''No columns to parse from file'')
   \<and> fst (read_and_concat_csvs example_fs [''/w/a.csv'', ''/w/empty.csv'', ''/w/b.csv''] new_world)
       = Inr (Some \<lparr>columns = [''x'', ''y''],
                     rows = [[Some 1, None], [Some 2, None], [Some 3, Some 4]]\<rparr>)
   \<and> (WARNING, ''Empty file: /w/empty.csv'')
       \<in> set (logged (snd (read_and_concat_csvs example_fs
                  [''/w/a.csv'', ''/w/empty.csv'', ''/w/b.csv''] new_world)))
   \<and> pd_read_csv example_fs ''/w/bad.csv'' = Inl (OtherException ''Error tokenizing data'')
   \<and> (ERROR, ''Error processing /w/bad.csv: Error tokenizing data'')
       \<in> set (logged (snd (read_and_concat_csvs example_fs
                  [''/w/a.csv'', ''/w/bad.csv'', ''/w/b.csv''] new_world)))"
proof -
  have empty: "pd_read_csv example_fs ''/w/empty.csv''
      = Inl (EmptyDataError ''No columns to parse from file'')"
    by (simp add: example_fs_def)
  have bad: "pd_read_csv example_fs ''/w/bad.csv'' = Inl (OtherException ''Error tokenizing data'')"
    by (simp add: example_fs_def)
  have others: "frames_read example_fs ([''/w/a.csv''] @ [''/w/b.csv''])
      = [\<lparr>columns = [''x''], rows = [[Some 1], [Some 2]]\<rparr>,
         \<lparr>columns = [''x'', ''y''], rows = [[Some 3, Some 4]]\<rparr>]"
    by (simp add: example_eval)
  have stacked: "stack_frames example_fs [\<lparr>columns = [''x''], rows = [[Some (1::int)], [Some 2]]\<rparr>,
         \<lparr>columns = [''x'', ''y''], rows = [[Some 3, Some 4]]\<rparr>]
      = \<lparr>columns = [''x'', ''y''], rows = [[Some 1, None], [Some 2, None], [Some 3, Some 4]]\<rparr>"
    by (simp add: frame_eval example_fs_def)
  have result: "fst (read_and_concat_csvs example_fs
        [''/w/a.csv'', ''/w/empty.csv'', ''/w/b.csv''] new_world)
      = Inr (Some \<lparr>columns = [''x'', ''y''],
                    rows = [[Some 1, None], [Some 2, None], [Some 3, Some 4]]\<rparr>)"
    using read_failures_are_skipped
      [OF empty, of "[''/w/a.csv'']" "[''/w/b.csv'']" new_world]
    unfolding others stacked by simp
  have warned: "(WARNING, ''Empty file: /w/empty.csv'')
       \<in> set (logged (snd (read_and_concat_csvs example_fs
                  [''/w/a.csv'', ''/w/empty.csv'', ''/w/b.csv''] new_world)))"
    using read_failures_are_skipped
      [OF empty, of "[''/w/a.csv'']" "[''/w/b.csv'']" new_world]
    by simp
  have error: "(ERROR, ''Error processing /w/bad.csv: Error tokenizing data'')
       \<in> set (logged (snd (read_and_concat_csvs example_fs
                  [''/w/a.csv'', ''/w/bad.csv'', ''/w/b.csv''] new_world)))"
    using read_failures_are_skipped
      [OF bad, of "[''/w/a.csv'']" "[''/w/b.csv'']" new_world]
    by simp
  from empty bad result warned error show ?thesis by simp
qed

text \<open>
  Against C5 as it is worded, for files whose read gives no row: \<open>header.csv\<close> is read
  as a table with two columns and no row. It is not skipped and no warning is logged:
  the two records of the log are at level \<open>INFO\<close>, and the column \<open>z\<close>, which only this
  file has, is a column of the combined table.
\<close>

theorem table_without_rows_is_not_skipped:
  "pd_read_csv example_fs ''/w/header.csv'' = Inr \<lparr>columns = [''x'', ''z''], rows = []\<rparr>
   \<and> read_and_concat_csvs example_fs [''/w/a.csv'', ''/w/header.csv''] new_world
       = (Inr (Some \<lparr>columns = [''x'', ''z''], rows = [[Some 1, None], [Some 2, None]]\<rparr>),
          \<lparr>logged = [(INFO, ''Successfully processed: /w/a.csv''),
                     (INFO, ''Successfully processed: /w/header.csv'')],
           written = [], self_dataframe = None\<rparr>)"
  by (simp add: read_and_concat_csvs_run example_eval frame_eval)

text \<open>
  C6. For every list of paths from which no table is read, the empty list included,
  the reader returns no result (\<open>None\<close>) without raising, and the last record it logs
  is a warning. When no table is read from the valid paths of an aggregator,
  \<open>process\<close> returns no path, without raising, and logs the warning that there is no
  data to save.
\<close>

theorem nothing_read_gives_no_result:
  "(frames_read fs file_paths = [] \<longrightarrow>
      fst (read_and_concat_csvs fs file_paths w) = Inr None
      \<and> last (logged (snd (read_and_concat_csvs fs file_paths w)))
          = (WARNING, if file_paths = [] then ''No valid files to process''
                      else ''No DataFrames were processed''))
   \<and> (frames_read fs (valid_paths_of fs self) = [] \<longrightarrow>
      fst (process fs self w') = Inr None
      \<and> (WARNING, ''No data to save'') \<in> set (logged (snd (process fs self w'))))"
  by (simp add: read_and_concat_csvs_run process_run)

theorem nothing_read_gives_no_result_witness:
  "frames_read example_fs [''/w/empty.csv'', ''/w/bad.csv''] = []
   \<and> fst (read_and_concat_csvs example_fs [''/w/empty.csv'', ''/w/bad.csv''] new_world) = Inr None
   \<and> last (logged (snd (read_and_concat_csvs example_fs
               [''/w/empty.csv'', ''/w/bad.csv''] new_world)))
       = (WARNING, ''No DataFrames were processed'')
   \<and> fst (read_and_concat_csvs example_fs [] new_world) = Inr None
   \<and> last (logged (snd (read_and_concat_csvs example_fs [] new_world)))
       = (WARNING, ''No valid files to process'')
   \<and> valid_paths_of example_fs \<lparr>file_string = ''notacsv.txt'', base_path = ''/w''\<rparr> = []
   \<and> fst (process example_fs \<lparr>file_string = ''notacsv.txt'', base_path = ''/w''\<rparr> new_world)
       = Inr None
   \<and> (WARNING, ''No data to save'')
       \<in> set (logged (snd (process example_fs
                  \<lparr>file_string = ''notacsv.txt'', base_path = ''/w''\<rparr> new_world)))"
proof -
  have unread: "frames_read example_fs [''/w/empty.csv'', ''/w/bad.csv''] = []"
    by (simp add: example_eval)
  have nil: "frames_read example_fs [] = []"
    by (simp add: frames_read_def)
  have invalid: "valid_paths_of example_fs \<lparr>file_string = ''notacsv.txt'', base_path = ''/w''\<rparr> = []"
    by (simp add: valid_paths_of_def parse_file_string_def example_eval string_eval)
  then have no_frames:
    "frames_read example_fs
       (valid_paths_of example_fs \<lparr>file_string = ''notacsv.txt'', base_path = ''/w''\<rparr>) = []"
    by (simp add: frames_read_def)
  have r1: "fst (read_and_concat_csvs example_fs [''/w/empty.csv'', ''/w/bad.csv''] new_world)
        = Inr None
      \<and> last (logged (snd (read_and_concat_csvs example_fs
               [''/w/empty.csv'', ''/w/bad.csv''] new_world)))
        = (WARNING, ''No DataFrames were processed'')"
    using nothing_read_gives_no_result
      [of example_fs "[''/w/empty.csv'', ''/w/bad.csv'']" new_world] unread by simp
  have r2: "fst (read_and_concat_csvs example_fs [] new_world) = Inr None
      \<and> last (logged (snd (read_and_concat_csvs example_fs [] new_world)))
        = (WARNING, ''No valid files to process'')"
    using nothing_read_gives_no_result [of example_fs "[]" new_world] nil by simp
  have r3: "fst (process example_fs \<lparr>file_string = ''notacsv.txt'', base_path = ''/w''\<rparr> new_world)
        = Inr None
      \<and> (WARNING, ''No data to save'')
        \<in> set (logged (snd (process example_fs
                  \<lparr>file_string = ''notacsv.txt'', base_path = ''/w''\<rparr> new_world)))"
    using no_frames nothing_read_gives_no_result
      [of example_fs "[]" new_world
         "\<lparr>file_string = ''notacsv.txt'', base_path = ''/w''\<rparr>" new_world]
    by blast
  from unread invalid r1 r2 r3 show ?thesis by simp
qed

text \<open>
  C10. No stage removes duplicates. For every list of paths in which a valid path
  \<open>p\<close> that is read as the table \<open>df\<close> occurs, the validator returns \<open>p\<close> as often as
  it occurs in the list. The reader, given what the validator returns, reads every path
  of that list, occurrence after occurrence, and stacks one block of rows for each: the
  rows of the combined table are, row for row, the rows of these blocks in the order of
  the list, converted cell by cell as the library converts the column. The block of
  every occurrence of \<open>p\<close> is the rows of \<open>df\<close> laid out on the columns of the combined
  table, which for a well-formed \<open>df\<close> loses no cell. So the number of rows of the
  combined table is the sum, over the paths returned by the validator with their
  repetitions, of the numbers of rows read from each, and \<open>p\<close> adds the rows of \<open>df\<close>
  to it as often as it occurs.
\<close>

theorem duplicate_paths_multiply_rows:
  assumes "is_valid fs p" and "pd_read_csv fs p = Inr df" and "p \<in> set ps"
  shows "\<exists>valid combined.
       fst (validate_file_paths fs ps w) = Inr valid
     \<and> count_list valid p = count_list ps p
     \<and> fst (read_and_concat_csvs fs valid w') = Inr (Some combined)
     \<and> rows combined
         = map (upcast_row fs (frames_read fs valid) (columns combined))
             (concat (map (\<lambda>q. concat (map (aligned_rows (columns combined))
                                           (read_outcome fs q))) valid))
     \<and> read_outcome fs p = [df]
     \<and> length (rows combined)
         = sum_list (map (\<lambda>q. sum_list (map (\<lambda>d. length (rows d)) (read_outcome fs q)))
                      valid)
     \<and> count_list ps p * length (rows df) \<le> length (rows combined)
     \<and> (well_formed df \<longrightarrow>
          map (reindex (columns combined) (columns df)) (aligned_rows (columns combined) df)
            = rows df)"
proof -
  let ?valid = "filter (is_valid fs) ps"
  let ?dfs = "frames_read fs ?valid"
  let ?cols = "union_columns ?dfs"
  let ?block = "\<lambda>q. concat (map (aligned_rows ?cols) (read_outcome fs q))"
  let ?size = "\<lambda>q. sum_list (map (\<lambda>d. length (rows d)) (read_outcome fs q))"
  have validated: "fst (validate_file_paths fs ps w) = Inr ?valid"
    by (simp add: validate_file_paths_run)
  have kept: "count_list ?valid p = count_list ps p"
    using assms(1) by (simp add: count_list_filter)
  have outcome: "read_outcome fs p = [df]"
    using assms(2) by (simp add: read_outcome_def)
  have occurs: "p \<in> set ?valid"
    using assms(1,3) by simp
  then have paths: "?valid \<noteq> []"
    by (metis empty_iff list.set(1))
  have member: "df \<in> set ?dfs"
    using occurs outcome by (force simp: frames_read_def)
  then have some: "?dfs \<noteq> []"
    by (metis empty_iff list.set(1))
  have run: "fst (read_and_concat_csvs fs ?valid w') = Inr (Some (stack_frames fs ?dfs))"
    using some paths by (simp add: read_and_concat_csvs_run)
  have cols: "columns (stack_frames fs ?dfs) = ?cols"
    by (simp add: stack_frames_def)
  have blocks: "rows (stack_frames fs ?dfs)
      = map (upcast_row fs ?dfs ?cols) (concat (map ?block ?valid))"
    by (simp add: stack_frames_def frames_read_def concat_map_concat)
  have size: "length (?block q) = ?size q" for q
    by (rule length_concat_aligned)
  have "length (concat (map ?block ?valid)) = sum_list (map (\<lambda>q. length (?block q)) ?valid)"
    by (simp add: length_concat comp_def)
  then have total: "length (rows (stack_frames fs ?dfs)) = sum_list (map ?size ?valid)"
    unfolding blocks by (simp only: length_map size)
  have "count_list ?valid p * ?size p \<le> sum_list (map ?size ?valid)"
    by (rule count_list_sum_le)
  then have many: "count_list ps p * length (rows df) \<le> length (rows (stack_frames fs ?dfs))"
    using kept total by (simp add: outcome)
  have restored: "well_formed df \<longrightarrow>
      map (reindex ?cols (columns df)) (aligned_rows ?cols df) = rows df"
  proof
    assume wf: "well_formed df"
    have "set (columns df) \<subseteq> set ?cols"
      using member by (auto simp: set_union_columns)
    with wf show "map (reindex ?cols (columns df)) (aligned_rows ?cols df) = rows df"
      by (rule aligned_rows_back)
  qed
  show ?thesis
    using validated kept run blocks outcome total many restored
    unfolding cols [symmetric] by blast
qed

theorem duplicate_paths_multiply_rows_witness:
  "is_valid example_fs ''/w/a.csv''
   \<and> count_list [''/w/a.csv'', ''/w/b.csv'', ''/w/a.csv''] ''/w/a.csv'' = 2
   \<and> (\<exists>valid combined.
         fst (validate_file_paths example_fs [''/w/a.csv'', ''/w/b.csv'', ''/w/a.csv''] new_world)
           = Inr valid
         \<and> count_list valid ''/w/a.csv'' = 2
         \<and> fst (read_and_concat_csvs example_fs valid new_world) = Inr (Some combined)
         \<and> 2 * 2 \<le> length (rows combined))
   \<and> fst (read_and_concat_csvs example_fs [''/w/a.csv'', ''/w/b.csv'', ''/w/a.csv''] new_world)
       = Inr (Some \<lparr>columns = [''x'', ''y''],
                     rows = [[Some 1, None], [Some 2, None], [Some 3, Some 4],
                             [Some 1, None], [Some 2, None]]\<rparr>)"
proof -
  have valid: "is_valid example_fs ''/w/a.csv''"
    by (simp add: example_eval string_eval)
  have read: "pd_read_csv example_fs ''/w/a.csv''
      = Inr \<lparr>columns = [''x''], rows = [[Some 1], [Some 2]]\<rparr>"
    by (simp add: example_fs_def)
  have occurs: "''/w/a.csv'' \<in> set [''/w/a.csv'', ''/w/b.csv'', ''/w/a.csv'']"
    by simp
  have twice: "count_list [''/w/a.csv'', ''/w/b.csv'', ''/w/a.csv''] ''/w/a.csv'' = 2"
    by simp
  obtain valid_paths combined where
    "fst (validate_file_paths example_fs [''/w/a.csv'', ''/w/b.csv'', ''/w/a.csv''] new_world)
       = Inr valid_paths"
    and "count_list valid_paths ''/w/a.csv''
       = count_list [''/w/a.csv'', ''/w/b.csv'', ''/w/a.csv''] ''/w/a.csv''"
    and "fst (read_and_concat_csvs example_fs valid_paths new_world) = Inr (Some combined)"
    and "count_list [''/w/a.csv'', ''/w/b.csv'', ''/w/a.csv''] ''/w/a.csv''
           * length (rows \<lparr>columns = [''x''], rows = [[Some (1::int)], [Some 2]]\<rparr>)
         \<le> length (rows combined)"
    using duplicate_paths_multiply_rows [OF valid read occurs, of new_world new_world]
    by blast
  then have general: "\<exists>valid combined.
         fst (validate_file_paths example_fs [''/w/a.csv'', ''/w/b.csv'', ''/w/a.csv''] new_world)
           = Inr valid
         \<and> count_list valid ''/w/a.csv'' = 2
         \<and> fst (read_and_concat_csvs example_fs valid new_world) = Inr (Some combined)
         \<and> 2 * 2 \<le> length (rows combined)"
    unfolding twice by auto
  have run: "fst (read_and_concat_csvs example_fs
        [''/w/a.csv'', ''/w/b.csv'', ''/w/a.csv''] new_world)
      = Inr (Some \<lparr>columns = [''x'', ''y''],
                    rows = [[Some 1, None], [Some 2, None], [Some 3, Some 4],
                            [Some 1, None], [Some 2, None]]\<rparr>)"
    by (simp add: read_and_concat_csvs_run example_eval frame_eval)
  from valid twice general run show ?thesis by blast
qed

subsection \<open>The aggregator\<close>

text \<open>
  C2, as the code has it. For every file string, base path and file system,
  \<open>process\<close> never raises. It returns no path when no path is valid, and when no
  table is read from the valid paths. When at least one table is read, the stack of the
  tables read is written, with or without rows: when the write succeeds, \<open>process\<close>
  returns the output path, the base path joined with \<open>aggregated_data.csv\<close>; when the
  write raises, the exception is caught, logged as an error, and \<open>process\<close> returns no
  path.
\<close>

theorem process_never_raises:
  "(\<exists>r. fst (process fs self w) = Inr r)
   \<and> (valid_paths_of fs self = [] \<longrightarrow> fst (process fs self w) = Inr None)
   \<and> (frames_read fs (valid_paths_of fs self) = [] \<longrightarrow> fst (process fs self w) = Inr None)
   \<and> (frames_read fs (valid_paths_of fs self) \<noteq> []
        \<and> to_csv fs (stack_frames fs (frames_read fs (valid_paths_of fs self))) (output_path self)
            = Inr () \<longrightarrow>
        fst (process fs self w) = Inr (Some (output_path self)))
   \<and> (\<forall>e. frames_read fs (valid_paths_of fs self) \<noteq> []
        \<and> to_csv fs (stack_frames fs (frames_read fs (valid_paths_of fs self))) (output_path self)
            = Inl e \<longrightarrow>
        fst (process fs self w) = Inr None
        \<and> (ERROR, ''Data aggregation failed: '' @ str_of e)
            \<in> set (logged (snd (process fs self w))))"
proof -
  have returns: "\<exists>r. fst (process fs self w) = Inr r"
    by (simp add: process_run split: sum.splits)
  have no_paths: "valid_paths_of fs self = [] \<longrightarrow> fst (process fs self w) = Inr None"
    by (simp add: process_run frames_read_def)
  have no_frames: "frames_read fs (valid_paths_of fs self) = [] \<longrightarrow>
      fst (process fs self w) = Inr None"
    by (simp add: process_run)
  have saved: "frames_read fs (valid_paths_of fs self) \<noteq> []
      \<and> to_csv fs (stack_frames fs (frames_read fs (valid_paths_of fs self))) (output_path self)
          = Inr () \<longrightarrow>
      fst (process fs self w) = Inr (Some (output_path self))"
    by (simp add: process_run)
  have caught: "\<forall>e. frames_read fs (valid_paths_of fs self) \<noteq> []
      \<and> to_csv fs (stack_frames fs (frames_read fs (valid_paths_of fs self))) (output_path self)
          = Inl e \<longrightarrow>
      fst (process fs self w) = Inr None
      \<and> (ERROR, ''Data aggregation failed: '' @ str_of e)
          \<in> set (logged (snd (process fs self w)))"
    by (simp add: process_run)
  from returns no_paths no_frames saved caught show ?thesis by blast
qed

theorem process_never_raises_witness:
  "fst (process example_fs \<lparr>file_string = ''a.csv, b.csv'', base_path = ''/w''\<rparr> new_world)
     = Inr (Some ''/w/aggregated_data.csv'')
   \<and> valid_paths_of example_fs \<lparr>file_string = ''missing.csv'', base_path = ''/w''\<rparr> = []
   \<and> fst (process example_fs \<lparr>file_string = ''missing.csv'', base_path = ''/w''\<rparr> new_world)
       = Inr None
   \<and> frames_read example_fs
         (valid_paths_of example_fs \<lparr>file_string = ''empty.csv'', base_path = ''/w''\<rparr>) = []
   \<and> fst (process example_fs \<lparr>file_string = ''empty.csv'', base_path = ''/w''\<rparr> new_world)
       = Inr None
   \<and> fst (process full_disk_fs \<lparr>file_string = ''a.csv'', base_path = ''/w''\<rparr> new_world)
       = Inr None
   \<and> (ERROR, ''Data aggregation failed: No space left on device'')
       \<in> set (logged (snd (process full_disk_fs
                  \<lparr>file_string = ''a.csv'', base_path = ''/w''\<rparr> new_world)))"
proof -
  have two: "frames_read example_fs
        (valid_paths_of example_fs \<lparr>file_string = ''a.csv, b.csv'', base_path = ''/w''\<rparr>) \<noteq> []"
    by (simp add: pipeline_eval example_eval string_eval)
  have written: "to_csv example_fs
        (stack_frames example_fs (frames_read example_fs
           (valid_paths_of example_fs \<lparr>file_string = ''a.csv, b.csv'', base_path = ''/w''\<rparr>)))
        (output_path \<lparr>file_string = ''a.csv, b.csv'', base_path = ''/w''\<rparr>) = Inr ()"
    by (simp add: example_fs_def)
  have path: "output_path \<lparr>file_string = ''a.csv, b.csv'', base_path = ''/w''\<rparr>
      = ''/w/aggregated_data.csv''"
    by (simp add: pipeline_eval string_eval)
  have saved: "fst (process example_fs
        \<lparr>file_string = ''a.csv, b.csv'', base_path = ''/w''\<rparr> new_world)
      = Inr (Some ''/w/aggregated_data.csv'')"
    using two written process_never_raises
      [of example_fs "\<lparr>file_string = ''a.csv, b.csv'', base_path = ''/w''\<rparr>" new_world]
    unfolding path by blast
  have missing: "valid_paths_of example_fs \<lparr>file_string = ''missing.csv'', base_path = ''/w''\<rparr>
      = []"
    by (simp add: pipeline_eval example_eval string_eval)
  have no_path: "fst (process example_fs
        \<lparr>file_string = ''missing.csv'', base_path = ''/w''\<rparr> new_world) = Inr None"
    using missing process_never_raises
      [of example_fs "\<lparr>file_string = ''missing.csv'', base_path = ''/w''\<rparr>" new_world]
    by blast
  have empty: "frames_read example_fs
        (valid_paths_of example_fs \<lparr>file_string = ''empty.csv'', base_path = ''/w''\<rparr>) = []"
    by (simp add: pipeline_eval example_eval string_eval)
  have no_table: "fst (process example_fs
        \<lparr>file_string = ''empty.csv'', base_path = ''/w''\<rparr> new_world) = Inr None"
    using empty process_never_raises
      [of example_fs "\<lparr>file_string = ''empty.csv'', base_path = ''/w''\<rparr>" new_world]
    by blast
  have one: "frames_read full_disk_fs
        (valid_paths_of full_disk_fs \<lparr>file_string = ''a.csv'', base_path = ''/w''\<rparr>) \<noteq> []"
    by (simp add: pipeline_eval example_eval string_eval)
  have full: "to_csv full_disk_fs
        (stack_frames full_disk_fs (frames_read full_disk_fs
           (valid_paths_of full_disk_fs \<lparr>file_string = ''a.csv'', base_path = ''/w''\<rparr>)))
        (output_path \<lparr>file_string = ''a.csv'', base_path = ''/w''\<rparr>)
      = Inl (OtherException ''No space left on device'')"
    by (simp add: full_disk_fs_def)
  have caught: "fst (process full_disk_fs
        \<lparr>file_string = ''a.csv'', base_path = ''/w''\<rparr> new_world) = Inr None
     \<and> (ERROR, ''Data aggregation failed: '' @ str_of (OtherException ''No space left on device''))
        \<in> set (logged (snd (process full_disk_fs
                  \<lparr>file_string = ''a.csv'', base_path = ''/w''\<rparr> new_world)))"
    using one full process_never_raises
      [of full_disk_fs "\<lparr>file_string = ''a.csv'', base_path = ''/w''\<rparr>" new_world]
    by blast
  from saved missing no_path empty no_table caught show ?thesis by simp
qed

text \<open>
  Against C2 as it is worded, for a combined table that turns out empty: the only file
  named is \<open>header.csv\<close>, which is read as a table with two columns and no row. The
  combined table, kept in \<open>self.dataframe\<close>, has no row; \<open>process\<close> writes it and
  returns the output path, not \<open>None\<close>.
\<close>

theorem empty_combined_table_is_saved:
  "process example_fs \<lparr>file_string = ''header.csv'', base_path = ''/w''\<rparr> new_world
     = (Inr (Some ''/w/aggregated_data.csv''),
        \<lparr>logged = [(INFO, ''Successfully processed: /w/header.csv''),
                   (INFO, ''Aggregated data saved to /w/aggregated_data.csv'')],
         written = [(''/w/aggregated_data.csv'', \<lparr>columns = [''x'', ''z''], rows = []\<rparr>)],
         self_dataframe = Some \<lparr>columns = [''x'', ''z''], rows = []\<rparr>\<rparr>)"
  by (simp add: process_run pipeline_eval example_eval string_eval frame_eval)

subsection \<open>Two runs of the whole pipeline\<close>

text \<open>The files \<open>a.csv\<close> and \<open>b.csv\<close> are aggregated: the rows of \<open>a.csv\<close> come first,
  with a missing value in the column that only \<open>b.csv\<close> has.\<close>

lemma run_two_files:
  "process example_fs \<lparr>file_string = ''a.csv, b.csv'', base_path = ''/w''\<rparr> new_world
     = (Inr (Some ''/w/aggregated_data.csv''),
        \<lparr>logged = [(INFO, ''Successfully processed: /w/a.csv''),
                   (INFO, ''Successfully processed: /w/b.csv''),
                   (INFO, ''Aggregated data saved to /w/aggregated_data.csv'')],
         written = [(''/w/aggregated_data.csv'',
                     \<lparr>columns = [''x'', ''y''],
                      rows = [[Some 1, None], [Some 2, None], [Some 3, Some 4]]\<rparr>)],
         self_dataframe = Some \<lparr>columns = [''x'', ''y''],
                                rows = [[Some 1, None], [Some 2, None], [Some 3, Some 4]]\<rparr>\<rparr>)"
  by (simp add: process_run pipeline_eval example_eval string_eval frame_eval)

text \<open>A name that does not exist is dropped with a warning; the other file is aggregated.\<close>

lemma run_with_missing_file:
  "process example_fs \<lparr>file_string = ''a.csv, missing.csv'', base_path = ''/w''\<rparr> new_world
     = (Inr (Some ''/w/aggregated_data.csv''),
        \<lparr>logged = [(WARNING, ''Path does not exist: /w/missing.csv''),
                   (INFO, ''Successfully processed: /w/a.csv''),
                   (INFO, ''Aggregated data saved to /w/aggregated_data.csv'')],
         written = [(''/w/aggregated_data.csv'',
                     \<lparr>columns = [''x''], rows = [[Some 1], [Some 2]]\<rparr>)],
         self_dataframe = Some \<lparr>columns = [''x''], rows = [[Some 1], [Some 2]]\<rparr>\<rparr>)"
  by (simp add: process_run pipeline_eval example_eval string_eval frame_eval)

end
